theory Spec2Isabelle
  imports Main
begin

section \<open>Raw pointers and exceptions\<close>

text \<open>
  RedisClient.h works on raw C pointers (\<^verbatim>\<open>redisReply*\<close>, \<^verbatim>\<open>REDIS_SOCKET*\<close>,
  \<^verbatim>\<open>REDIS_INSTANCE*\<close>). A pointer is an address; the null pointer is address 0.
\<close>

type_synonym addr = nat

abbreviation NULL :: addr where
  "NULL \<equiv> 0"

text \<open>
  The header throws \<^verbatim>\<open>std::runtime_error\<close> with a message. \<open>CommandFailed\<close> is
  thrown nowhere in RedisClient.h; it is the condition the specification asks of the
  command dispatcher and is used by the dispatcher's model only.
\<close>

datatype error = runtime_error string | CommandFailed

definition PoolExhausted :: error where
  "PoolExhausted = runtime_error ''Can't get socket from pool''"

definition PoolCreationFailed :: error where
  "PoolCreationFailed = runtime_error ''Can't create pool''"

section \<open>RedisReplyPtr: the reply handle\<close>

text \<open>
  \<^verbatim>\<open>struct RedisReplyRef { redisReply* p; explicit RedisReplyRef(redisReply* _p): p(_p) {} };\<close>
\<close>

datatype RedisReplyRef = RedisReplyRef addr

text \<open>\<^verbatim>\<open>class RedisReplyPtr { ... private: redisReply* reply; };\<close>\<close>

record RedisReplyPtr =
  reply :: addr

text \<open>
  The assignment operator compares \<^verbatim>\<open>this\<close> with \<^verbatim>\<open>&other\<close>, so handles are objects
  with an identity: the store maps the identity of every live handle to its value.
  \<open>freed\<close> logs the argument of every call of hiredis' \<^verbatim>\<open>freeReplyObject\<close>, in
  order. \<open>loose\<close> lists the raw pointers that a caller got from \<^verbatim>\<open>release()\<close> and
  holds outside every handle.
\<close>

record store =
  handles :: "nat \<rightharpoonup> RedisReplyPtr"
  freed :: "addr list"
  loose :: "addr list"

text \<open>
  \<^verbatim>\<open>freeReplyObject\<close> belongs to hiredis. The header calls it with whatever the handle
  holds, the null pointer included; the model records the call. A reply is freed by a
  call whose argument is not null.
\<close>

definition freeReplyObject :: "addr \<Rightarrow> store \<Rightarrow> store" where
  "freeReplyObject r s = s\<lparr>freed := freed s @ [r]\<rparr>"

definition replies_freed :: "store \<Rightarrow> addr list" where
  "replies_freed s = filter (\<lambda>r. r \<noteq> NULL) (freed s)"

text \<open>
  Member functions take the identity of \<^verbatim>\<open>this\<close>. A call on an object that is not
  alive (or a construction of one that is) is no program of C++: the result is \<open>None\<close>.
\<close>

text \<open>\<^verbatim>\<open>explicit RedisReplyPtr(void* _reply = 0) : reply((redisReply*)_reply) {}\<close>\<close>

definition RedisReplyPtr_ctor :: "nat \<Rightarrow> addr \<Rightarrow> store \<Rightarrow> store option" where
  "RedisReplyPtr_ctor this r s =
     (case handles s this of
        Some _ \<Rightarrow> None
      | None \<Rightarrow> Some (s\<lparr>handles := (handles s)(this \<mapsto> \<lparr>reply = r\<rparr>)\<rparr>))"

text \<open>\<^verbatim>\<open>~RedisReplyPtr() { freeReplyObject(reply); }\<close>\<close>

definition RedisReplyPtr_dtor :: "nat \<Rightarrow> store \<Rightarrow> store option" where
  "RedisReplyPtr_dtor this s =
     (case handles s this of
        None \<Rightarrow> None
      | Some h \<Rightarrow> Some (freeReplyObject (reply h) (s\<lparr>handles := (handles s)(this := None)\<rparr>)))"

text \<open>
  \<^verbatim>\<open>redisReply* release() { redisReply* temp = reply; reply = NULL; return temp; }\<close>
\<close>

definition release :: "nat \<Rightarrow> store \<Rightarrow> (addr \<times> store) option" where
  "release this s =
     (case handles s this of
        None \<Rightarrow> None
      | Some h \<Rightarrow> Some (reply h, s\<lparr>handles := (handles s)(this \<mapsto> h\<lparr>reply := NULL\<rparr>)\<rparr>))"

text \<open>\<^verbatim>\<open>RedisReplyPtr(RedisReplyPtr& other) { reply = other.release(); }\<close>\<close>

definition RedisReplyPtr_transfer :: "nat \<Rightarrow> nat \<Rightarrow> store \<Rightarrow> store option" where
  "RedisReplyPtr_transfer this other s =
     (case handles s this of
        Some _ \<Rightarrow> None
      | None \<Rightarrow>
          (case release other s of
             None \<Rightarrow> None
           | Some (r, s1) \<Rightarrow> Some (s1\<lparr>handles := (handles s1)(this \<mapsto> \<lparr>reply = r\<rparr>)\<rparr>)))"

text \<open>
  \<^verbatim>\<open>
  RedisReplyPtr& operator=(RedisReplyPtr& other) {
      if (this == &other)
          return *this;
      RedisReplyPtr temp(release());
      reply = other.release();
      return *this;
  }
  \<close>
  The local handle \<^verbatim>\<open>temp\<close> takes what \<^verbatim>\<open>this\<close> held and is destroyed on return: its
  destructor calls \<^verbatim>\<open>freeReplyObject\<close> on it.
\<close>

definition operator_assign :: "nat \<Rightarrow> nat \<Rightarrow> store \<Rightarrow> store option" where
  "operator_assign this other s =
     (if this = other then (case handles s this of None \<Rightarrow> None | Some _ \<Rightarrow> Some s)
      else
        (case release this s of
           None \<Rightarrow> None
         | Some (old, s1) \<Rightarrow>
             (case release other s1 of
                None \<Rightarrow> None
              | Some (r, s2) \<Rightarrow>
                  Some (freeReplyObject old
                    (s2\<lparr>handles := (handles s2)(this \<mapsto> \<lparr>reply = r\<rparr>)\<rparr>)))))"

text \<open>\<^verbatim>\<open>RedisReplyPtr(RedisReplyRef _ref) { reply = _ref.p; }\<close>\<close>

fun RedisReplyPtr_from_ref :: "nat \<Rightarrow> RedisReplyRef \<Rightarrow> store \<Rightarrow> store option" where
  "RedisReplyPtr_from_ref this (RedisReplyRef r) s =
     (case handles s this of
        Some _ \<Rightarrow> None
      | None \<Rightarrow> Some (s\<lparr>handles := (handles s)(this \<mapsto> \<lparr>reply = r\<rparr>)\<rparr>))"

text \<open>
  \<^verbatim>\<open>
  RedisReplyPtr& operator=(RedisReplyRef _ref) {
      if (reply == _ref.p )
          return *this;
      RedisReplyPtr temp(release());
      reply = _ref.p;
      return *this;
  }
  \<close>
\<close>

fun operator_assign_ref :: "nat \<Rightarrow> RedisReplyRef \<Rightarrow> store \<Rightarrow> store option" where
  "operator_assign_ref this (RedisReplyRef r) s =
     (case handles s this of
        None \<Rightarrow> None
      | Some h \<Rightarrow>
          (if reply h = r then Some s
           else
             (case release this s of
                None \<Rightarrow> None
              | Some (old, s1) \<Rightarrow>
                  Some (freeReplyObject old
                    (s1\<lparr>handles := (handles s1)(this \<mapsto> \<lparr>reply = r\<rparr>)\<rparr>)))))"

text \<open>\<^verbatim>\<open>operator RedisReplyRef() { return RedisReplyRef(release()); }\<close>\<close>

definition operator_RedisReplyRef :: "nat \<Rightarrow> store \<Rightarrow> (RedisReplyRef \<times> store) option" where
  "operator_RedisReplyRef this s =
     (case release this s of
        None \<Rightarrow> None
      | Some (r, s1) \<Rightarrow> Some (RedisReplyRef r, s1))"

text \<open>
  The const members read the handle's value and cannot change it.
  \<^verbatim>\<open>
  bool notNull() const { return (reply != NULL); }
  redisReply* get() const { return reply; }
  redisReply* operator->() const { return reply; }
  redisReply& operator*() const { return *reply; }
  \<close>
  Neither access operator has a \<^verbatim>\<open>throw\<close>: their result type has the error branch
  only so that a failure can be stated about them. \<open>deref\<close> is the
  built-in unary \<^verbatim>\<open>*\<close> of C++ on a raw pointer: the object at the address, and
  undefined behaviour on the null pointer.
\<close>

definition notNull :: "RedisReplyPtr \<Rightarrow> bool" where
  "notNull h = (reply h \<noteq> NULL)"

definition get :: "RedisReplyPtr \<Rightarrow> addr" where
  "get h = reply h"

datatype lvalue = Undefined_behaviour | Object_at addr

definition deref :: "addr \<Rightarrow> lvalue" where
  "deref r = (if r = NULL then Undefined_behaviour else Object_at r)"

definition operator_arrow :: "RedisReplyPtr \<Rightarrow> error + addr" where
  "operator_arrow h = Inr (reply h)"

definition operator_star :: "RedisReplyPtr \<Rightarrow> error + lvalue" where
  "operator_star h = Inr (deref (reply h))"

subsection \<open>Programs over reply handles\<close>

text \<open>
  The ownership transfers a program can write with handles \<open>a\<close>, \<open>b\<close> and a fresh
  name \<open>n\<close>:
  \<^item> \<open>Transfer_construct n b\<close>: \<^verbatim>\<open>RedisReplyPtr n(b);\<close>
  \<^item> \<open>Assign a b\<close>: \<^verbatim>\<open>a = b;\<close>
  \<^item> \<open>Release a\<close>: \<^verbatim>\<open>a.release();\<close>, the raw pointer going to the caller
  \<^item> \<open>Convert_construct n b\<close>: \<^verbatim>\<open>RedisReplyPtr n((RedisReplyRef)b);\<close>, as when \<open>b\<close> is a
    temporary returned by value
  \<^item> \<open>Convert_assign a b\<close>: \<^verbatim>\<open>a = (RedisReplyRef)b;\<close>
\<close>

datatype transfer =
    Transfer_construct nat nat
  | Assign nat nat
  | Release nat
  | Convert_construct nat nat
  | Convert_assign nat nat

fun step :: "transfer \<Rightarrow> store \<Rightarrow> store option" where
  "step (Transfer_construct n b) s = RedisReplyPtr_transfer n b s"
| "step (Assign a b) s = operator_assign a b s"
| "step (Release a) s =
     (case release a s of
        None \<Rightarrow> None
      | Some (r, s1) \<Rightarrow> Some (s1\<lparr>loose := loose s1 @ [r]\<rparr>))"
| "step (Convert_construct n b) s =
     (case operator_RedisReplyRef b s of
        None \<Rightarrow> None
      | Some (ref, s1) \<Rightarrow> RedisReplyPtr_from_ref n ref s1)"
| "step (Convert_assign a b) s =
     (case operator_RedisReplyRef b s of
        None \<Rightarrow> None
      | Some (ref, s1) \<Rightarrow> operator_assign_ref a ref s1)"

fun run :: "transfer list \<Rightarrow> store \<Rightarrow> store option" where
  "run [] s = Some s"
| "run (t # ts) s = (case step t s of None \<Rightarrow> None | Some s1 \<Rightarrow> run ts s1)"

text \<open>The handles go out of scope one after the other, in the order given.\<close>

fun destroy_all :: "nat list \<Rightarrow> store \<Rightarrow> store option" where
  "destroy_all [] s = Some s"
| "destroy_all (h # hs) s =
     (case RedisReplyPtr_dtor h s of None \<Rightarrow> None | Some s1 \<Rightarrow> destroy_all hs s1)"

definition lifetime :: "transfer list \<Rightarrow> nat list \<Rightarrow> store \<Rightarrow> store option" where
  "lifetime ts hs s = (case run ts s of None \<Rightarrow> None | Some s1 \<Rightarrow> destroy_all hs s1)"

text \<open>
  \<open>emptied b s\<close>: the handle \<open>b\<close> is alive and owns nothing (\<^verbatim>\<open>notNull()\<close> is false),
  and its destructor runs, calls \<^verbatim>\<open>freeReplyObject\<close> on the null pointer and so frees
  no reply.
\<close>

definition emptied :: "nat \<Rightarrow> store \<Rightarrow> bool" where
  "emptied b s =
     (case handles s b of
        None \<Rightarrow> False
      | Some h \<Rightarrow>
          \<not> notNull h \<and>
          (case RedisReplyPtr_dtor b s of
             None \<Rightarrow> False
           | Some s1 \<Rightarrow> freed s1 = freed s @ [NULL] \<and> replies_freed s1 = replies_freed s))"

text \<open>
  \<open>owned s r\<close>: some live handle holds \<open>r\<close>. \<open>exclusive s\<close>: no reply is held by two
  handles (the data model's invariant).
\<close>

definition owned :: "store \<Rightarrow> addr \<Rightarrow> bool" where
  "owned s r = (\<exists>h x. handles s h = Some x \<and> reply x = r)"

definition exclusive :: "store \<Rightarrow> bool" where
  "exclusive s =
     (\<forall>h h' x x'. handles s h = Some x \<and> handles s h' = Some x' \<and>
        reply x = reply x' \<and> reply x \<noteq> NULL \<longrightarrow> h = h')"

text \<open>
  \<open>holding m r\<close>: the handles that hold \<open>r\<close>. \<open>tracked s r\<close>: the reply \<open>r\<close> is in
  exactly one place: held by one handle and neither freed nor handed out, or held by no
  handle and either freed once or handed out once.
\<close>

definition holding :: "(nat \<rightharpoonup> RedisReplyPtr) \<Rightarrow> addr \<Rightarrow> nat set" where
  "holding m r = {h. \<exists>x. m h = Some x \<and> reply x = r}"

definition tracked :: "store \<Rightarrow> addr \<Rightarrow> bool" where
  "tracked s r =
     (r \<noteq> NULL \<and>
      (\<forall>a b. a \<in> holding (handles s) r \<and> b \<in> holding (handles s) r \<longrightarrow> a = b) \<and>
      (if holding (handles s) r = {}
       then count_list (freed s) r + count_list (loose s) r = 1
       else r \<notin> set (freed s) \<and> r \<notin> set (loose s)))"

section \<open>The connection pool\<close>

text \<open>
  A pool instance, from the specification's data model (section 3): the pool owns its
  connections, and a connection is at any moment either in the pool (\<open>idle\<close>,
  available) or checked out (\<open>busy\<close>). The world maps every \<^verbatim>\<open>REDIS_INSTANCE*\<close> that
  names a pool to that pool.
\<close>

record pool =
  idle :: "addr list"
  busy :: "addr list"

type_synonym world = "addr \<rightharpoonup> pool"

text \<open>
  Modelled from the spec: \<^verbatim>\<open>redis_get_socket\<close> is declared in hiredispool.h and defined
  in hiredispool.c, neither of which is among the sources. The specification (section
  6): \<open>checkout\<close> yields a connection of the pool or nothing. The pool's wait policy is
  not modelled: a checkout that finds no available connection yields the null pointer at
  once, and so does a \<^verbatim>\<open>REDIS_INSTANCE*\<close> that names no pool.
\<close>

definition redis_get_socket :: "addr \<Rightarrow> world \<Rightarrow> addr \<times> world" where
  "redis_get_socket i w =
     (case w i of
        None \<Rightarrow> (NULL, w)
      | Some p \<Rightarrow>
          (case idle p of
             [] \<Rightarrow> (NULL, w)
           | c # cs \<Rightarrow> (c, w(i \<mapsto> p\<lparr>idle := cs, busy := c # busy p\<rparr>))))"

text \<open>
  Modelled from the spec: \<^verbatim>\<open>redis_release_socket\<close> is declared in hiredispool.h and
  defined in hiredispool.c, neither of which is among the sources. The specification
  (section 6): \<open>checkin\<close> returns a checked-out connection to the pool; a pointer that
  is not checked out of this pool changes nothing.
\<close>

definition redis_release_socket :: "addr \<Rightarrow> addr \<Rightarrow> world \<Rightarrow> world" where
  "redis_release_socket i c w =
     (case w i of
        None \<Rightarrow> w
      | Some p \<Rightarrow>
          (if c \<in> set (busy p)
           then w(i \<mapsto> p\<lparr>idle := idle p @ [c], busy := remove1 c (busy p)\<rparr>)
           else w))"

section \<open>PooledSocket: the connection guard\<close>

text \<open>\<^verbatim>\<open>class PooledSocket { ... private: REDIS_INSTANCE* inst; REDIS_SOCKET* sock; };\<close>\<close>

record PooledSocket =
  inst :: addr
  sock :: addr

text \<open>
  \<^verbatim>\<open>
  PooledSocket(REDIS_INSTANCE* _inst) : inst(_inst) {
      sock = redis_get_socket(inst);
      if (sock == NULL)
          throw std::runtime_error("Can't get socket from pool");
  }
  \<close>
  A constructor that throws constructs no object: the result is the exception alone.
\<close>

definition PooledSocket_ctor :: "addr \<Rightarrow> world \<Rightarrow> (error + PooledSocket) \<times> world" where
  "PooledSocket_ctor i w =
     (let (c, w1) = redis_get_socket i w
      in if c = NULL then (Inl (runtime_error ''Can't get socket from pool''), w1)
         else (Inr \<lparr>PooledSocket.inst = i, sock = c\<rparr>, w1))"

text \<open>\<^verbatim>\<open>~PooledSocket() { redis_release_socket(inst, sock); }\<close>\<close>

definition PooledSocket_dtor :: "PooledSocket \<Rightarrow> world \<Rightarrow> world" where
  "PooledSocket_dtor g w = redis_release_socket (PooledSocket.inst g) (sock g) w"

text \<open>
  \<^verbatim>\<open>operator REDIS_SOCKET*() { return sock; }\<close>
  The conversion is not a const member, so the model returns the guard as the call
  leaves it.
\<close>

definition operator_REDIS_SOCKET :: "PooledSocket \<Rightarrow> addr \<times> PooledSocket" where
  "operator_REDIS_SOCKET g = (sock g, g)"

fun conversions :: "nat \<Rightarrow> PooledSocket \<Rightarrow> addr list \<times> PooledSocket" where
  "conversions 0 g = ([], g)"
| "conversions (Suc k) g =
     (let (c, g1) = operator_REDIS_SOCKET g; (cs, g2) = conversions k g1 in (c # cs, g2))"

text \<open>
  The scoped block the class is written for:
  \<^verbatim>\<open>{ PooledSocket socket(inst); body(socket); }\<close>
  C++ runs the destructor of a constructed local when the block is left, by a return
  as by an exception thrown in the body (\<open>Inl\<close>); a constructor that throws has built
  nothing, so neither body nor destructor runs.
\<close>

definition scoped_PooledSocket ::
  "addr \<Rightarrow> (addr \<Rightarrow> world \<Rightarrow> (error + 'a) \<times> world) \<Rightarrow> world \<Rightarrow> (error + 'a) \<times> world" where
  "scoped_PooledSocket i body w =
     (case PooledSocket_ctor i w of
        (Inl e, w1) \<Rightarrow> (Inl e, w1)
      | (Inr g, w1) \<Rightarrow>
          (let (c, g1) = operator_REDIS_SOCKET g;
               (res, w2) = body c w1
           in (res, PooledSocket_dtor g1 w2)))"

section \<open>RedisClient: the client handle\<close>

text \<open>\<^verbatim>\<open>class RedisClient { ... private: REDIS_INSTANCE* inst; };\<close>\<close>

record RedisClient =
  inst :: addr

text \<open>
  \<^verbatim>\<open>
  RedisClient(const REDIS_CONFIG& conf) {
      if (redis_pool_create(&conf, &inst) < 0)
          throw std::runtime_error("Can't create pool");
  }
  ~RedisClient() {
      redis_pool_destroy(inst);
  }
  \<close>
  \<^verbatim>\<open>redis_pool_create\<close>, \<^verbatim>\<open>redis_pool_destroy\<close> and \<^verbatim>\<open>REDIS_CONFIG\<close> come from hiredispool.h;
  they are parameters here. \<open>redis_pool_create conf w\<close> gives the return code, the
  pointer stored through \<^verbatim>\<open>&inst\<close> and the world it leaves.
\<close>

definition RedisClient_ctor ::
  "('conf \<Rightarrow> world \<Rightarrow> int \<times> addr \<times> world) \<Rightarrow> 'conf \<Rightarrow> world \<Rightarrow>
   (error + RedisClient) \<times> world" where
  "RedisClient_ctor redis_pool_create conf w =
     (let (rc, i, w1) = redis_pool_create conf w
      in if rc < 0 then (Inl (runtime_error ''Can't create pool''), w1)
         else (Inr \<lparr>RedisClient.inst = i\<rparr>, w1))"

definition RedisClient_dtor :: "(addr \<Rightarrow> world \<Rightarrow> world) \<Rightarrow> RedisClient \<Rightarrow> world \<Rightarrow> world" where
  "RedisClient_dtor redis_pool_destroy client w = redis_pool_destroy (RedisClient.inst client) w"

text \<open>\<^verbatim>\<open>{ RedisClient client(conf); body(client); }\<close>\<close>

definition scoped_RedisClient ::
  "('conf \<Rightarrow> world \<Rightarrow> int \<times> addr \<times> world) \<Rightarrow> (addr \<Rightarrow> world \<Rightarrow> world) \<Rightarrow> 'conf \<Rightarrow>
   (RedisClient \<Rightarrow> world \<Rightarrow> (error + 'a) \<times> world) \<Rightarrow> world \<Rightarrow> (error + 'a) \<times> world" where
  "scoped_RedisClient redis_pool_create redis_pool_destroy conf body w =
     (case RedisClient_ctor redis_pool_create conf w of
        (Inl e, w1) \<Rightarrow> (Inl e, w1)
      | (Inr client, w1) \<Rightarrow>
          (let (res, w2) = body client w1
           in (res, RedisClient_dtor redis_pool_destroy client w2)))"

text \<open>
  Modelled from the spec: \<^verbatim>\<open>RedisClient::redisCommand\<close> is declared in RedisClient.h
  (\<^verbatim>\<open>RedisReplyPtr redisCommand(const char *format, ...);\<close>) and defined in
  RedisClient.cpp, which is not among the sources. The specification (section 4.3): the
  dispatcher acquires a connection guard from the client's pool and propagates the
  failure of the acquisition without sending anything; it sends the formatted command on
  the borrowed connection; a null raw reply is mapped to a \<open>CommandFailed\<close> condition,
  not to an empty reply handle; otherwise the raw reply is wrapped in a reply handle and
  returned; the guard's destruction returns the connection as the scope ends.
  \<open>sendCommand\<close> is the protocol collaborator, \<open>command\<close> the formatted command.
\<close>

definition redisCommand ::
  "(addr \<Rightarrow> string \<Rightarrow> addr) \<Rightarrow> RedisClient \<Rightarrow> string \<Rightarrow> world \<Rightarrow>
   (error + RedisReplyPtr) \<times> world" where
  "redisCommand sendCommand client command w =
     scoped_PooledSocket (RedisClient.inst client)
       (\<lambda>c w1. (let raw = sendCommand c command
                in if raw = NULL then Inl CommandFailed else Inr \<lparr>reply = raw\<rparr>, w1)) w"

section \<open>Properties of the reply handle\<close>

lemmas handle_ops =
  release_def operator_assign_def operator_RedisReplyRef_def RedisReplyPtr_transfer_def
  RedisReplyPtr_dtor_def RedisReplyPtr_ctor_def freeReplyObject_def replies_freed_def

lemma reply_update [simp]: "h\<lparr>reply := r\<rparr> = \<lparr>reply = r\<rparr>"
  by (cases h) simp

subsection \<open>Where a reply is\<close>

lemma holding_upd [simp]:
  "holding (m(a \<mapsto> x)) r = (if reply x = r then insert a (holding m r) else holding m r - {a})"
  by (auto simp add: holding_def)

lemma holding_del [simp]: "holding (m(a := None)) r = holding m r - {a}"
  by (auto simp add: holding_def)

lemma holding_no_handles [simp]: "holding Map.empty r = {}"
  by (simp add: holding_def)

lemma holding_Some:
  "handles s a = Some x \<Longrightarrow> a \<in> holding (handles s) r \<longleftrightarrow> reply x = r"
  by (simp add: holding_def)

lemma holding_None: "handles s a = None \<Longrightarrow> a \<notin> holding (handles s) r"
  by (simp add: holding_def)

lemma owned_holding: "owned s r \<longleftrightarrow> holding (handles s) r \<noteq> {}"
  by (auto simp add: owned_def holding_def)

lemma count_list_none [simp]: "count_list xs r = 0 \<longleftrightarrow> r \<notin> set xs"
  by (induction xs) auto

text \<open>What each transfer does to the store keeps every reply in exactly one place.\<close>

lemma tracked_transfer:
  assumes "tracked s r" and "handles s b = Some y" and "handles s n = None"
  shows "tracked (s\<lparr>handles := (handles s)(b \<mapsto> \<lparr>reply = NULL\<rparr>, n \<mapsto> \<lparr>reply = reply y\<rparr>)\<rparr>) r"
  using assms(1) holding_Some [OF assms(2), of r] holding_None [OF assms(3), of r]
  unfolding tracked_def by (auto split: if_splits)

lemma tracked_assign:
  assumes "tracked s r" and "handles s a = Some x" and "handles s b = Some y" and "a \<noteq> b"
  shows "tracked (s\<lparr>handles := (handles s)(b \<mapsto> \<lparr>reply = NULL\<rparr>, a \<mapsto> \<lparr>reply = reply y\<rparr>),
                   freed := freed s @ [reply x]\<rparr>) r"
  using assms(1,4) holding_Some [OF assms(2), of r] holding_Some [OF assms(3), of r]
  unfolding tracked_def by (auto split: if_splits)

lemma tracked_release:
  assumes "tracked s r" and "handles s a = Some x"
  shows "tracked (s\<lparr>handles := (handles s)(a \<mapsto> \<lparr>reply = NULL\<rparr>),
                   loose := loose s @ [reply x]\<rparr>) r"
  using assms(1) holding_Some [OF assms(2), of r]
  unfolding tracked_def by (auto split: if_splits)

lemma tracked_empty_handle:
  assumes "tracked s r" and "handles s a = Some x" and "reply x = NULL"
  shows "tracked (s\<lparr>handles := (handles s)(a \<mapsto> \<lparr>reply = NULL\<rparr>)\<rparr>) r"
    and "tracked (s\<lparr>handles := (handles s)(a \<mapsto> \<lparr>reply = NULL\<rparr>),
                    freed := freed s @ [NULL]\<rparr>) r"
  using assms(1,3) holding_Some [OF assms(2), of r]
  unfolding tracked_def by (auto split: if_splits)

lemma tracked_destroy:
  assumes "tracked s r" and "handles s a = Some x"
  shows "tracked (s\<lparr>handles := (handles s)(a := None), freed := freed s @ [reply x]\<rparr>) r"
  using assms(1) holding_Some [OF assms(2), of r]
  unfolding tracked_def by (auto split: if_splits)

lemma tracked_same:
  assumes "tracked s r" and "handles s a = Some x" and "handles s b = Some y" and "a \<noteq> b"
    and "reply x = reply y"
  shows "tracked (s\<lparr>handles := (handles s)(b \<mapsto> \<lparr>reply = NULL\<rparr>)\<rparr>) r"
  using assms(1,4,5) holding_Some [OF assms(2), of r] holding_Some [OF assms(3), of r]
  unfolding tracked_def by (auto split: if_splits)

lemma tracked_self_convert:
  assumes "tracked s r" and "handles s a = Some x"
  shows "tracked (s\<lparr>handles := (handles s)(a \<mapsto> \<lparr>reply = reply x\<rparr>),
                   freed := freed s @ [NULL]\<rparr>) r"
  using assms(1) holding_Some [OF assms(2), of r]
  unfolding tracked_def by (auto split: if_splits)

lemmas tracked_prims =
  tracked_transfer tracked_assign tracked_release tracked_empty_handle tracked_destroy
  tracked_same tracked_self_convert

lemma tracked_step:
  assumes "tracked s r" and "step t s = Some s'"
  shows "tracked s' r"
proof (cases t)
  case (Transfer_construct n b)
  with assms show ?thesis
    by (auto simp add: handle_ops tracked_prims split: option.splits if_splits)
next
  case (Assign a b)
  with assms show ?thesis
    by (auto simp add: handle_ops tracked_prims split: option.splits if_splits)
next
  case (Release a)
  with assms show ?thesis
    by (auto simp add: handle_ops tracked_prims split: option.splits if_splits)
next
  case (Convert_construct n b)
  with assms show ?thesis
    by (auto simp add: handle_ops tracked_prims split: option.splits if_splits)
next
  case (Convert_assign a b)
  with assms show ?thesis
    by (auto simp add: handle_ops tracked_prims split: option.splits if_splits)
qed

lemma tracked_run: "tracked s r \<Longrightarrow> run ts s = Some s' \<Longrightarrow> tracked s' r"
  by (induction ts arbitrary: s) (auto split: option.splits dest: tracked_step)

lemma tracked_initial:
  assumes "exclusive s" and "handles s h = Some x" and "reply x \<noteq> NULL"
    and "reply x \<notin> set (freed s)" and "reply x \<notin> set (loose s)"
  shows "tracked s (reply x)"
proof -
  have "h \<in> holding (handles s) (reply x)"
    using assms(2) by (simp add: holding_def)
  moreover have "a = b"
    if "a \<in> holding (handles s) (reply x)" and "b \<in> holding (handles s) (reply x)" for a b
  proof -
    from that obtain xa xb where "handles s a = Some xa" and "reply xa = reply x"
      and "handles s b = Some xb" and "reply xb = reply x"
      by (auto simp add: holding_def)
    with assms(1,3) show ?thesis
      unfolding exclusive_def by metis
  qed
  ultimately show ?thesis
    using assms(3,4,5) unfolding tracked_def by auto
qed

text \<open>Destroying every live handle succeeds and leaves no handle behind.\<close>

lemma destroy_all_tracked:
  assumes "distinct hs" and "set hs = dom (handles s)" and "tracked s r"
  shows "\<exists>s'. destroy_all hs s = Some s' \<and> tracked s' r \<and> handles s' = Map.empty \<and>
    loose s' = loose s"
  using assms
proof (induction hs arbitrary: s)
  case Nil
  then have "dom (handles s) = {}" by simp
  with Nil show ?case by simp
next
  case (Cons h hs)
  from Cons.prems(2) obtain x where x: "handles s h = Some x"
    by (metis domD list.set_intros(1))
  define s1 where "s1 = s\<lparr>handles := (handles s)(h := None), freed := freed s @ [reply x]\<rparr>"
  have d: "RedisReplyPtr_dtor h s = Some s1"
    using x by (simp add: RedisReplyPtr_dtor_def freeReplyObject_def s1_def)
  have "set hs = dom (handles s1)"
    using Cons.prems(1,2) by (auto simp add: s1_def)
  moreover have "tracked s1 r"
    unfolding s1_def using Cons.prems(3) x by (rule tracked_destroy)
  moreover have "distinct hs"
    using Cons.prems(1) by simp
  ultimately obtain s' where "destroy_all hs s1 = Some s'" and "tracked s' r"
    and "handles s' = Map.empty" and "loose s' = loose s1"
    using Cons.IH by blast
  then show ?case
    using d by (simp add: s1_def)
qed

lemma tracked_no_handles:
  assumes "tracked s r" and "handles s = Map.empty"
  shows "count_list (freed s) r = (if r \<in> set (loose s) then 0 else 1)"
proof -
  have "holding (handles s) r = {}"
    using assms(2) by simp
  then have total: "count_list (freed s) r + count_list (loose s) r = 1"
    using assms(1) by (simp add: tracked_def)
  show ?thesis
  proof (cases "r \<in> set (loose s)")
    case True
    then have "count_list (loose s) r \<noteq> 0" by simp
    with total have "count_list (freed s) r = 0" by linarith
    with True show ?thesis by simp
  next
    case False
    then have "count_list (loose s) r = 0" by simp
    with total have "count_list (freed s) r = 1" by linarith
    with False show ?thesis by simp
  qed
qed

subsection \<open>Exclusive ownership of a reply\<close>

text \<open>
  C1, as the code has it. Start from handles that hold pairwise distinct replies, among
  them a reply that is neither freed nor handed out. After any sequence of transfer
  constructions, assignments, \<^verbatim>\<open>release()\<close> calls and conversions through
  \<^verbatim>\<open>RedisReplyRef\<close>, the reply has not been freed while a handle still holds it; and once
  every handle has been destroyed (which always succeeds), \<^verbatim>\<open>freeReplyObject\<close> has been
  called on the reply exactly once, unless a \<^verbatim>\<open>release()\<close> call handed it to the caller:
  then no handle ever frees it.
\<close>

theorem reply_freed_once_unless_released:
  assumes "exclusive s" and "handles s h = Some x" and "reply x \<noteq> NULL"
    and "reply x \<notin> set (freed s)" and "reply x \<notin> set (loose s)"
    and "run ts s = Some s'" and "distinct hs" and "set hs = dom (handles s')"
  shows "(owned s' (reply x) \<longrightarrow> reply x \<notin> set (freed s')) \<and>
    (\<exists>s''. lifetime ts hs s = Some s'' \<and>
      count_list (freed s'') (reply x) = (if reply x \<in> set (loose s') then 0 else 1))"
proof -
  have "tracked s (reply x)"
    using assms(1-5) by (rule tracked_initial)
  then have t: "tracked s' (reply x)"
    using assms(6) by (rule tracked_run)
  then have "owned s' (reply x) \<longrightarrow> reply x \<notin> set (freed s')"
    unfolding owned_holding tracked_def by (auto split: if_splits)
  moreover obtain s'' where "destroy_all hs s' = Some s''" and "tracked s'' (reply x)"
    and "handles s'' = Map.empty" and "loose s'' = loose s'"
    using destroy_all_tracked [OF assms(7,8) t] by blast
  ultimately show ?thesis
    using assms(6) tracked_no_handles [of s'' "reply x"] by (simp add: lifetime_def)
qed

text \<open>
  Two handles hold the replies 1 and 2; \<^verbatim>\<open>h0 = h1; RedisReplyPtr h2(h0);\<close> and the
  destruction of the three handles free reply 1 once (in the assignment).
\<close>

theorem reply_freed_once_witness:
  "exclusive \<lparr>handles = [0 \<mapsto> \<lparr>reply = 1\<rparr>, 1 \<mapsto> \<lparr>reply = 2\<rparr>], freed = [], loose = []\<rparr> \<and>
   run [Assign 0 1, Transfer_construct 2 0]
     \<lparr>handles = [0 \<mapsto> \<lparr>reply = 1\<rparr>, 1 \<mapsto> \<lparr>reply = 2\<rparr>], freed = [], loose = []\<rparr> =
     Some \<lparr>handles = [0 \<mapsto> \<lparr>reply = NULL\<rparr>, 1 \<mapsto> \<lparr>reply = NULL\<rparr>, 2 \<mapsto> \<lparr>reply = 2\<rparr>],
       freed = [1], loose = []\<rparr> \<and>
   (\<exists>s''. lifetime [Assign 0 1, Transfer_construct 2 0] [2, 1, 0]
       \<lparr>handles = [0 \<mapsto> \<lparr>reply = 1\<rparr>, 1 \<mapsto> \<lparr>reply = 2\<rparr>], freed = [], loose = []\<rparr> = Some s'' \<and>
     count_list (freed s'') 1 = 1)"
proof -
  let ?s = "\<lparr>handles = [0 \<mapsto> \<lparr>reply = 1\<rparr>, 1 \<mapsto> \<lparr>reply = 2\<rparr>], freed = [], loose = []\<rparr>"
  let ?s' = "\<lparr>handles = [0 \<mapsto> \<lparr>reply = NULL\<rparr>, 1 \<mapsto> \<lparr>reply = NULL\<rparr>, 2 \<mapsto> \<lparr>reply = 2\<rparr>],
       freed = [1], loose = []\<rparr>"
  have e: "exclusive ?s"
    by (auto simp add: exclusive_def split: if_splits)
  have r: "run [Assign 0 1, Transfer_construct 2 0] ?s = Some ?s'"
    by (simp add: handle_ops fun_upd_twist)
  have d: "set [2, 1, 0] = dom (handles ?s')"
    by auto
  show ?thesis
    using e r
      reply_freed_once_unless_released
        [of ?s 0 "\<lparr>reply = 1\<rparr>" _ ?s' "[2, 1, 0]", OF e _ _ _ _ r _ d]
    by simp
qed

text \<open>
  Exactly once fails on \<^verbatim>\<open>release()\<close>: one handle holds reply 1, the program
  calls \<^verbatim>\<open>h0.release();\<close> and the handle is destroyed. The only call of
  \<^verbatim>\<open>freeReplyObject\<close> has the null pointer as its argument; reply 1 is freed zero times.
\<close>

theorem released_reply_never_freed:
  "exclusive \<lparr>handles = [0 \<mapsto> \<lparr>reply = 1\<rparr>], freed = [], loose = []\<rparr> \<and>
   lifetime [Release 0] [0] \<lparr>handles = [0 \<mapsto> \<lparr>reply = 1\<rparr>], freed = [], loose = []\<rparr> =
     Some \<lparr>handles = Map.empty, freed = [NULL], loose = [1]\<rparr> \<and>
   count_list [NULL] (1 :: addr) = 0"
  by (simp add: lifetime_def handle_ops exclusive_def)

subsection \<open>Assignment\<close>

lemma convert_assign_distinct:
  assumes "handles s a = Some x" and "handles s b = Some y" and "a \<noteq> b"
    and "reply x \<noteq> reply y \<or> reply x = NULL"
  shows "\<exists>s'. step (Convert_assign a b) s = Some s' \<and>
        handles s' = (handles s)(b \<mapsto> \<lparr>reply = NULL\<rparr>, a \<mapsto> \<lparr>reply = reply y\<rparr>) \<and>
        replies_freed s' = replies_freed s @ (if reply x = NULL then [] else [reply x])"
proof (cases "reply x = reply y")
  case True
  with assms show ?thesis
    by (auto simp add: handle_ops)
next
  case False
  with assms show ?thesis
    by (auto simp add: handle_ops)
qed

text \<open>
  C3. Let \<open>a\<close> and \<open>b\<close> be live handles. \<^verbatim>\<open>a = a\<close> changes nothing. For distinct handles,
  \<^verbatim>\<open>a = b\<close> leaves \<open>a\<close> holding what \<open>b\<close> held, leaves \<open>b\<close> empty, and calls
  \<^verbatim>\<open>freeReplyObject\<close> on what \<open>a\<close> held before; no other handle changes. The assignment
  through the conversion, \<^verbatim>\<open>a = (RedisReplyRef)b\<close>, ends with the same handles and frees
  the reply \<open>a\<close> held, when the two handles do not hold the same reply.
\<close>

theorem assignment_transfers:
  assumes "handles s a = Some x" and "handles s b = Some y"
  shows "operator_assign a a s = Some s \<and>
    (a \<noteq> b \<longrightarrow> operator_assign a b s =
      Some (s\<lparr>handles := (handles s)(b \<mapsto> \<lparr>reply = NULL\<rparr>, a \<mapsto> \<lparr>reply = reply y\<rparr>),
              freed := freed s @ [reply x]\<rparr>)) \<and>
    (a \<noteq> b \<and> (reply x \<noteq> reply y \<or> reply x = NULL) \<longrightarrow>
      (\<exists>s'. step (Convert_assign a b) s = Some s' \<and>
        handles s' = (handles s)(b \<mapsto> \<lparr>reply = NULL\<rparr>, a \<mapsto> \<lparr>reply = reply y\<rparr>) \<and>
        replies_freed s' = replies_freed s @ (if reply x = NULL then [] else [reply x])))"
proof (intro conjI impI)
  show "operator_assign a a s = Some s"
    using assms by (simp add: operator_assign_def)
next
  assume "a \<noteq> b"
  with assms show "operator_assign a b s =
      Some (s\<lparr>handles := (handles s)(b \<mapsto> \<lparr>reply = NULL\<rparr>, a \<mapsto> \<lparr>reply = reply y\<rparr>),
              freed := freed s @ [reply x]\<rparr>)"
    by (simp add: handle_ops)
next
  assume "a \<noteq> b \<and> (reply x \<noteq> reply y \<or> reply x = NULL)"
  with assms show "\<exists>s'. step (Convert_assign a b) s = Some s' \<and>
        handles s' = (handles s)(b \<mapsto> \<lparr>reply = NULL\<rparr>, a \<mapsto> \<lparr>reply = reply y\<rparr>) \<and>
        replies_freed s' = replies_freed s @ (if reply x = NULL then [] else [reply x])"
    using convert_assign_distinct by blast
qed

theorem assignment_transfers_witness:
  "operator_assign 1 1
     \<lparr>handles = [0 \<mapsto> \<lparr>reply = 3\<rparr>, 1 \<mapsto> \<lparr>reply = 4\<rparr>], freed = [], loose = []\<rparr> =
     Some \<lparr>handles = [0 \<mapsto> \<lparr>reply = 3\<rparr>, 1 \<mapsto> \<lparr>reply = 4\<rparr>], freed = [], loose = []\<rparr> \<and>
   operator_assign 1 0
     \<lparr>handles = [0 \<mapsto> \<lparr>reply = 3\<rparr>, 1 \<mapsto> \<lparr>reply = 4\<rparr>], freed = [], loose = []\<rparr> =
     Some \<lparr>handles = [0 \<mapsto> \<lparr>reply = NULL\<rparr>, 1 \<mapsto> \<lparr>reply = 3\<rparr>], freed = [4], loose = []\<rparr> \<and>
   (\<exists>s'. step (Convert_assign 1 0)
       \<lparr>handles = [0 \<mapsto> \<lparr>reply = 3\<rparr>, 1 \<mapsto> \<lparr>reply = 4\<rparr>], freed = [], loose = []\<rparr> = Some s' \<and>
     handles s' = [0 \<mapsto> \<lparr>reply = NULL\<rparr>, 1 \<mapsto> \<lparr>reply = 3\<rparr>] \<and> replies_freed s' = [4])"
  using assignment_transfers
    [of "\<lparr>handles = [0 \<mapsto> \<lparr>reply = 3\<rparr>, 1 \<mapsto> \<lparr>reply = 4\<rparr>], freed = [], loose = []\<rparr>"
      1 "\<lparr>reply = 4\<rparr>" 0 "\<lparr>reply = 3\<rparr>"]
  by (simp add: replies_freed_def)

subsection \<open>A handle after its reply has moved out\<close>

lemma emptied_null: "handles s b = Some \<lparr>reply = NULL\<rparr> \<Longrightarrow> emptied b s"
  by (simp add: emptied_def notNull_def handle_ops)

text \<open>
  C7. Let \<open>b\<close> be a live handle holding \<open>reply y\<close>. Each way of moving the reply out goes
  through and leaves \<open>b\<close> emptied: \<^verbatim>\<open>b.release()\<close> returns the reply;
  \<^verbatim>\<open>RedisReplyPtr n(b)\<close> with a fresh \<open>n\<close> gives the reply to \<open>n\<close>; \<^verbatim>\<open>a = b\<close> with another
  live handle \<open>a\<close> gives it to \<open>a\<close>; the conversion of \<open>b\<close> to \<^verbatim>\<open>RedisReplyRef\<close> puts it
  in the \<^verbatim>\<open>RedisReplyRef\<close>. In every case \<open>b\<close> is then alive with \<^verbatim>\<open>notNull()\<close> false, and
  its destruction succeeds and frees no reply.
\<close>

theorem moved_from_handle_is_empty:
  assumes "handles s b = Some y"
  shows "(\<exists>s'. release b s = Some (reply y, s') \<and> emptied b s') \<and>
    (handles s n = None \<longrightarrow>
      (\<exists>s'. RedisReplyPtr_transfer n b s = Some s' \<and>
         handles s' n = Some \<lparr>reply = reply y\<rparr> \<and> emptied b s')) \<and>
    (a \<noteq> b \<and> handles s a = Some x \<longrightarrow>
      (\<exists>s'. operator_assign a b s = Some s' \<and>
         handles s' a = Some \<lparr>reply = reply y\<rparr> \<and> emptied b s')) \<and>
    (\<exists>s'. operator_RedisReplyRef b s = Some (RedisReplyRef (reply y), s') \<and> emptied b s')"
proof (intro conjI impI)
  show "\<exists>s'. release b s = Some (reply y, s') \<and> emptied b s'"
    using assms by (simp add: release_def emptied_null)
next
  assume "handles s n = None"
  with assms have "n \<noteq> b" by auto
  with assms \<open>handles s n = None\<close>
  show "\<exists>s'. RedisReplyPtr_transfer n b s = Some s' \<and>
         handles s' n = Some \<lparr>reply = reply y\<rparr> \<and> emptied b s'"
    by (simp add: RedisReplyPtr_transfer_def release_def emptied_null)
next
  assume "a \<noteq> b \<and> handles s a = Some x"
  with assms
  show "\<exists>s'. operator_assign a b s = Some s' \<and>
         handles s' a = Some \<lparr>reply = reply y\<rparr> \<and> emptied b s'"
    by (simp add: operator_assign_def release_def freeReplyObject_def emptied_null)
next
  show "\<exists>s'. operator_RedisReplyRef b s = Some (RedisReplyRef (reply y), s') \<and> emptied b s'"
    using assms by (simp add: operator_RedisReplyRef_def release_def emptied_null)
qed

text \<open>
  Handle 0 holds reply 5 and handle 1 holds reply 6; the four routes move reply 5 out of
  handle 0, and the destruction of the emptied handle logs the null pointer only.
\<close>

theorem moved_from_handle_is_empty_witness:
  "release 0 \<lparr>handles = [0 \<mapsto> \<lparr>reply = 5\<rparr>, 1 \<mapsto> \<lparr>reply = 6\<rparr>], freed = [], loose = []\<rparr> =
     Some (5, \<lparr>handles = [0 \<mapsto> \<lparr>reply = NULL\<rparr>, 1 \<mapsto> \<lparr>reply = 6\<rparr>], freed = [], loose = []\<rparr>) \<and>
   emptied 0 \<lparr>handles = [0 \<mapsto> \<lparr>reply = NULL\<rparr>, 1 \<mapsto> \<lparr>reply = 6\<rparr>], freed = [], loose = []\<rparr> \<and>
   (\<exists>s'. RedisReplyPtr_transfer 2 0
       \<lparr>handles = [0 \<mapsto> \<lparr>reply = 5\<rparr>, 1 \<mapsto> \<lparr>reply = 6\<rparr>], freed = [], loose = []\<rparr> = Some s' \<and>
     handles s' 2 = Some \<lparr>reply = 5\<rparr> \<and> emptied 0 s') \<and>
   (\<exists>s'. operator_assign 1 0
       \<lparr>handles = [0 \<mapsto> \<lparr>reply = 5\<rparr>, 1 \<mapsto> \<lparr>reply = 6\<rparr>], freed = [], loose = []\<rparr> = Some s' \<and>
     handles s' 1 = Some \<lparr>reply = 5\<rparr> \<and> emptied 0 s') \<and>
   (\<exists>s'. operator_RedisReplyRef 0
       \<lparr>handles = [0 \<mapsto> \<lparr>reply = 5\<rparr>, 1 \<mapsto> \<lparr>reply = 6\<rparr>], freed = [], loose = []\<rparr> =
       Some (RedisReplyRef 5, s') \<and> emptied 0 s') \<and>
   RedisReplyPtr_dtor 0
       \<lparr>handles = [0 \<mapsto> \<lparr>reply = NULL\<rparr>, 1 \<mapsto> \<lparr>reply = 6\<rparr>], freed = [], loose = []\<rparr> =
     Some \<lparr>handles = [1 \<mapsto> \<lparr>reply = 6\<rparr>], freed = [NULL], loose = []\<rparr>"
proof -
  let ?s = "\<lparr>handles = [0 \<mapsto> \<lparr>reply = 5\<rparr>, 1 \<mapsto> \<lparr>reply = 6\<rparr>], freed = [], loose = []\<rparr>"
  let ?s' = "\<lparr>handles = [0 \<mapsto> \<lparr>reply = NULL\<rparr>, 1 \<mapsto> \<lparr>reply = 6\<rparr>], freed = [], loose = []\<rparr>"
  have r: "release 0 ?s = Some (5, ?s')"
    by (simp add: release_def fun_upd_twist)
  have d: "RedisReplyPtr_dtor 0 ?s' =
      Some \<lparr>handles = [1 \<mapsto> \<lparr>reply = 6\<rparr>], freed = [NULL], loose = []\<rparr>"
    by (simp add: RedisReplyPtr_dtor_def freeReplyObject_def fun_upd_twist)
  from moved_from_handle_is_empty [of ?s 0 "\<lparr>reply = 5\<rparr>" 2 1 "\<lparr>reply = 6\<rparr>"] r d
  show ?thesis
    by simp
qed

subsection \<open>Access through an empty handle\<close>

text \<open>
  C4, as the code has it. \<^verbatim>\<open>operator->\<close> and \<^verbatim>\<open>operator*\<close> check nothing and throw
  nothing, whatever the handle holds: \<^verbatim>\<open>operator->\<close> returns the stored pointer, as
  \<^verbatim>\<open>get()\<close> does, and \<^verbatim>\<open>operator*\<close> is the raw dereference of the stored pointer.
\<close>

theorem access_unchecked:
  "operator_arrow h = Inr (get h) \<and> operator_star h = Inr (deref (get h)) \<and>
   (\<forall>e. operator_arrow h \<noteq> Inl e \<and> operator_star h \<noteq> Inl e)"
  by (simp add: operator_arrow_def operator_star_def get_def)

text \<open>
  On the empty handle nothing fails fast: \<^verbatim>\<open>operator->\<close> returns the null pointer and
  \<^verbatim>\<open>operator*\<close> dereferences it.
\<close>

theorem access_on_empty_handle_does_not_fail:
  "\<not> notNull \<lparr>reply = NULL\<rparr> \<and>
   operator_arrow \<lparr>reply = NULL\<rparr> = Inr NULL \<and>
   operator_star \<lparr>reply = NULL\<rparr> = Inr Undefined_behaviour"
  by (simp add: operator_arrow_def operator_star_def notNull_def deref_def)

section \<open>Properties of the connection guard\<close>

lemma PooledSocket_ctor_cases:
  "PooledSocket_ctor i w =
     (if fst (redis_get_socket i w) = NULL then Inl PoolExhausted
      else Inr \<lparr>PooledSocket.inst = i, sock = fst (redis_get_socket i w)\<rparr>,
      snd (redis_get_socket i w))"
  by (simp add: PooledSocket_ctor_def PoolExhausted_def split: prod.splits)

lemma conversions_const: "conversions k g = (replicate k (sock g), g)"
  by (induction k) (simp_all add: operator_REDIS_SOCKET_def)

text \<open>
  C2. Let the guard be constructed, and let the body of its scope end with \<open>res\<close>, a
  value or an exception. The scope ends with that same \<open>res\<close> after the destructor has
  called \<^verbatim>\<open>redis_release_socket\<close> with the pool and the socket of the checkout. If the
  body itself left the pool as the checkout left it, the pool has as many available
  connections (and the same ones) as before the checkout, and the same checked-out
  ones: nothing stays checked out.
\<close>

theorem guard_released_on_every_exit:
  assumes "PooledSocket_ctor i w = (Inr g, w1)" and "body (sock g) w1 = (res, w2)"
  shows "scoped_PooledSocket i body w = (res, redis_release_socket i (sock g) w2) \<and>
    (w2 i = w1 i \<longrightarrow>
      (\<exists>p p'. w i = Some p \<and> redis_release_socket i (sock g) w2 i = Some p' \<and>
         length (idle p') = length (idle p) \<and> set (idle p') = set (idle p) \<and>
         busy p' = busy p))"
proof -
  from assms(1) have g: "g = \<lparr>PooledSocket.inst = i, sock = fst (redis_get_socket i w)\<rparr>"
    and nz: "fst (redis_get_socket i w) \<noteq> NULL" and w1: "w1 = snd (redis_get_socket i w)"
    by (auto simp add: PooledSocket_ctor_cases split: if_splits)
  have 1: "scoped_PooledSocket i body w = (res, redis_release_socket i (sock g) w2)"
    using assms
    by (simp add: scoped_PooledSocket_def operator_REDIS_SOCKET_def PooledSocket_dtor_def g)
  have 2: "\<exists>p p'. w i = Some p \<and> redis_release_socket i (sock g) w2 i = Some p' \<and>
         length (idle p') = length (idle p) \<and> set (idle p') = set (idle p) \<and>
         busy p' = busy p" if "w2 i = w1 i"
    using nz that unfolding g w1
    by (auto simp add: redis_get_socket_def redis_release_socket_def
        split: option.splits list.splits)
  from 1 2 show ?thesis by blast
qed

text \<open>
  A pool with the connections 1 and 2; the command fails after the checkout of
  connection 1, and the pool ends with both connections available.
\<close>

theorem guard_released_on_every_exit_witness:
  "PooledSocket_ctor 7 [7 \<mapsto> \<lparr>idle = [1, 2], busy = []\<rparr>] =
     (Inr \<lparr>PooledSocket.inst = 7, sock = 1\<rparr>, [7 \<mapsto> \<lparr>idle = [2], busy = [1]\<rparr>]) \<and>
   scoped_PooledSocket 7 (\<lambda>c w. (Inl (runtime_error ''timeout'') :: error + unit, w))
       [7 \<mapsto> \<lparr>idle = [1, 2], busy = []\<rparr>] =
     (Inl (runtime_error ''timeout''), [7 \<mapsto> \<lparr>idle = [2, 1], busy = []\<rparr>])"
proof -
  let ?w = "[7 \<mapsto> \<lparr>idle = [1, 2], busy = []\<rparr>] :: world"
  let ?w1 = "[7 \<mapsto> \<lparr>idle = [2], busy = [1]\<rparr>] :: world"
  let ?g = "\<lparr>PooledSocket.inst = 7, sock = 1\<rparr>"
  let ?body = "\<lambda>(c :: addr) (w :: world). (Inl (runtime_error ''timeout'') :: error + unit, w)"
  have c: "PooledSocket_ctor 7 ?w = (Inr ?g, ?w1)"
    by (simp add: PooledSocket_ctor_def redis_get_socket_def)
  have b: "?body (sock ?g) ?w1 = (Inl (runtime_error ''timeout''), ?w1)"
    by simp
  from guard_released_on_every_exit
    [of 7 ?w ?g ?w1 ?body "Inl (runtime_error ''timeout'')" ?w1] c b
  show ?thesis
    by (simp add: redis_release_socket_def)
qed

text \<open>
  C6. When the checkout yields the null pointer, the constructor throws the
  \<open>PoolExhausted\<close> error and constructs no guard; a scope around it runs neither its body
  nor the destructor, so nothing is checked in: the world is the one the failed checkout
  left. Where the pool's available connections are real ones (not null), the failed
  checkout changed nothing, so no connection is checked out for the guard.
\<close>

theorem exhausted_pool_builds_no_guard:
  assumes "fst (redis_get_socket i w) = NULL"
  shows "PooledSocket_ctor i w = (Inl PoolExhausted, snd (redis_get_socket i w)) \<and>
    scoped_PooledSocket i body w = (Inl PoolExhausted, snd (redis_get_socket i w)) \<and>
    ((\<forall>p. w i = Some p \<longrightarrow> NULL \<notin> set (idle p)) \<longrightarrow> snd (redis_get_socket i w) = w)"
  using assms
  by (auto simp add: PooledSocket_ctor_cases scoped_PooledSocket_def redis_get_socket_def
      split: option.splits list.splits)

text \<open>Both connections of the pool are checked out; the third guard is not built.\<close>

theorem exhausted_pool_builds_no_guard_witness:
  "fst (redis_get_socket 7 [7 \<mapsto> \<lparr>idle = [], busy = [2, 1]\<rparr>]) = NULL \<and>
   PooledSocket_ctor 7 [7 \<mapsto> \<lparr>idle = [], busy = [2, 1]\<rparr>] =
     (Inl PoolExhausted, [7 \<mapsto> \<lparr>idle = [], busy = [2, 1]\<rparr>]) \<and>
   scoped_PooledSocket 7 (\<lambda>c w. (Inr c, Map.empty)) [7 \<mapsto> \<lparr>idle = [], busy = [2, 1]\<rparr>] =
     (Inl PoolExhausted, [7 \<mapsto> \<lparr>idle = [], busy = [2, 1]\<rparr>])"
proof -
  let ?w = "[7 \<mapsto> \<lparr>idle = [], busy = [2, 1]\<rparr>] :: world"
  have n: "fst (redis_get_socket 7 ?w) = NULL"
    by (simp add: redis_get_socket_def)
  from exhausted_pool_builds_no_guard [OF n, of "\<lambda>c w. (Inr c, Map.empty)"] n show ?thesis
    by (simp add: redis_get_socket_def)
qed

text \<open>
  C10. A constructed guard holds the pool it was given and the socket the checkout
  returned. Any number of conversions to \<^verbatim>\<open>REDIS_SOCKET*\<close> each yield that socket and
  leave the guard as it was, and the destructor then checks that socket in to that pool.
\<close>

theorem guard_fields_fixed:
  assumes "PooledSocket_ctor i w = (Inr g, w1)"
  shows "PooledSocket.inst g = i \<and> sock g = fst (redis_get_socket i w) \<and> sock g \<noteq> NULL \<and>
    (\<forall>k. conversions k g = (replicate k (fst (redis_get_socket i w)), g)) \<and>
    (\<forall>k w2. PooledSocket_dtor (snd (conversions k g)) w2 =
       redis_release_socket i (fst (redis_get_socket i w)) w2)"
  using assms
  by (auto simp add: PooledSocket_ctor_cases conversions_const PooledSocket_dtor_def
      split: if_splits)

theorem guard_fields_fixed_witness:
  "PooledSocket_ctor 7 [7 \<mapsto> \<lparr>idle = [1, 2], busy = []\<rparr>] =
     (Inr \<lparr>PooledSocket.inst = 7, sock = 1\<rparr>, [7 \<mapsto> \<lparr>idle = [2], busy = [1]\<rparr>]) \<and>
   conversions 3 \<lparr>PooledSocket.inst = 7, sock = 1\<rparr> =
     ([1, 1, 1], \<lparr>PooledSocket.inst = 7, sock = 1\<rparr>) \<and>
   PooledSocket_dtor (snd (conversions 3 \<lparr>PooledSocket.inst = 7, sock = 1\<rparr>))
       [7 \<mapsto> \<lparr>idle = [2], busy = [1]\<rparr>] =
     [7 \<mapsto> \<lparr>idle = [2, 1], busy = []\<rparr>]"
proof -
  let ?w = "[7 \<mapsto> \<lparr>idle = [1, 2], busy = []\<rparr>] :: world"
  let ?w1 = "[7 \<mapsto> \<lparr>idle = [2], busy = [1]\<rparr>] :: world"
  let ?g = "\<lparr>PooledSocket.inst = 7, sock = 1\<rparr>"
  have c: "PooledSocket_ctor 7 ?w = (Inr ?g, ?w1)"
    by (simp add: PooledSocket_ctor_def redis_get_socket_def)
  have f: "fst (redis_get_socket 7 ?w) = 1"
    by (simp add: redis_get_socket_def)
  from guard_fields_fixed [OF c]
  have k: "conversions 3 ?g = (replicate 3 1, ?g)"
    and d: "PooledSocket_dtor (snd (conversions 3 ?g)) ?w1 = redis_release_socket 7 1 ?w1"
    unfolding f by blast+
  have r: "redis_release_socket 7 1 ?w1 = [7 \<mapsto> \<lparr>idle = [2, 1], busy = []\<rparr>]"
    by (simp add: redis_release_socket_def)
  have three: "replicate 3 (1 :: addr) = [1, 1, 1]"
    by (simp add: numeral_3_eq_3)
  have k': "conversions 3 ?g = ([1, 1, 1], ?g)"
    by (simp only: k three)
  have d': "PooledSocket_dtor (snd (conversions 3 ?g)) ?w1 = [7 \<mapsto> \<lparr>idle = [2, 1], busy = []\<rparr>]"
    by (simp only: d r)
  from c k' d' show ?thesis
    by blast
qed

section \<open>Properties of the client handle and the dispatcher\<close>

text \<open>
  C9. When \<^verbatim>\<open>redis_pool_create\<close> returns a negative code, the constructor throws the
  \<open>PoolCreationFailed\<close> error and constructs no client; a scope around it runs neither
  its body nor the destructor, so no handle owning a pool instance exists.
\<close>

theorem failed_pool_creation_builds_no_client:
  assumes "redis_pool_create conf w = (rc, i, w1)" and "rc < 0"
  shows "RedisClient_ctor redis_pool_create conf w = (Inl PoolCreationFailed, w1) \<and>
    scoped_RedisClient redis_pool_create redis_pool_destroy conf body w =
      (Inl PoolCreationFailed, w1)"
  using assms
  by (simp add: RedisClient_ctor_def scoped_RedisClient_def PoolCreationFailed_def)

theorem failed_pool_creation_builds_no_client_witness:
  "RedisClient_ctor (\<lambda>conf w. (if conf = ''bad'' then - 1 else 0, 7, w)) ''bad'' Map.empty =
     (Inl PoolCreationFailed, Map.empty) \<and>
   scoped_RedisClient (\<lambda>conf w. (if conf = ''bad'' then - 1 else 0, 7, w))
       (\<lambda>i w. w(i := None)) ''bad'' (\<lambda>client w. (Inr client, w)) Map.empty =
     (Inl PoolCreationFailed, Map.empty)"
proof -
  let ?create = "\<lambda>(conf :: string) (w :: world). (if conf = ''bad'' then - 1 else 0 :: int, 7 :: addr, w)"
  have c: "?create ''bad'' Map.empty = (- 1, 7, Map.empty)"
    by simp
  have n: "(- 1 :: int) < 0"
    by simp
  from failed_pool_creation_builds_no_client
    [of ?create, OF c n, of "\<lambda>i w. w(i := None)" "\<lambda>client w. (Inr client, w)"]
  show ?thesis
    by simp
qed

text \<open>
  C5, on the dispatcher as the specification describes it. A call that returns a reply
  handle returns one that is not empty; and when the checkout succeeds and the
  send/receive produces the null pointer, the call ends with \<open>CommandFailed\<close>, the
  connection checked in.
\<close>

theorem dispatcher_reports_null_reply:
  "(fst (redisCommand sendCommand client command w) = Inr h \<longrightarrow> notNull h) \<and>
   (PooledSocket_ctor (RedisClient.inst client) w = (Inr g, w1) \<and>
    sendCommand (sock g) command = NULL \<longrightarrow>
      redisCommand sendCommand client command w =
        (Inl CommandFailed, redis_release_socket (RedisClient.inst client) (sock g) w1))"
  by (auto simp add: redisCommand_def scoped_PooledSocket_def operator_REDIS_SOCKET_def
      PooledSocket_dtor_def notNull_def PooledSocket_ctor_cases Let_def
      split: if_splits prod.splits sum.splits)

theorem dispatcher_reports_null_reply_witness:
  "redisCommand (\<lambda>c command. if command = ''PING'' then 9 else NULL)
       \<lparr>RedisClient.inst = 7\<rparr> ''GET k'' [7 \<mapsto> \<lparr>idle = [1, 2], busy = []\<rparr>] =
     (Inl CommandFailed, [7 \<mapsto> \<lparr>idle = [2, 1], busy = []\<rparr>]) \<and>
   redisCommand (\<lambda>c command. if command = ''PING'' then 9 else NULL)
       \<lparr>RedisClient.inst = 7\<rparr> ''PING'' [7 \<mapsto> \<lparr>idle = [1, 2], busy = []\<rparr>] =
     (Inr \<lparr>reply = 9\<rparr>, [7 \<mapsto> \<lparr>idle = [2, 1], busy = []\<rparr>]) \<and>
   notNull \<lparr>reply = 9\<rparr>"
proof -
  let ?send = "\<lambda>(c :: addr) (command :: string). if command = ''PING'' then 9 else NULL :: addr"
  let ?w = "[7 \<mapsto> \<lparr>idle = [1, 2], busy = []\<rparr>] :: world"
  let ?w1 = "[7 \<mapsto> \<lparr>idle = [2], busy = [1]\<rparr>] :: world"
  let ?g = "\<lparr>PooledSocket.inst = 7, sock = 1\<rparr>"
  have c: "PooledSocket_ctor (RedisClient.inst \<lparr>RedisClient.inst = 7\<rparr>) ?w = (Inr ?g, ?w1)"
    by (simp add: PooledSocket_ctor_def redis_get_socket_def)
  have p: "redisCommand ?send \<lparr>RedisClient.inst = 7\<rparr> ''PING'' ?w =
      (Inr \<lparr>reply = 9\<rparr>, [7 \<mapsto> \<lparr>idle = [2, 1], busy = []\<rparr>])"
    by (simp add: redisCommand_def scoped_PooledSocket_def PooledSocket_ctor_def
        redis_get_socket_def operator_REDIS_SOCKET_def PooledSocket_dtor_def
        redis_release_socket_def)
  from dispatcher_reports_null_reply
    [of ?send "\<lparr>RedisClient.inst = 7\<rparr>" "''GET k''" ?w _ ?g ?w1]
    dispatcher_reports_null_reply
    [of ?send "\<lparr>RedisClient.inst = 7\<rparr>" "''PING''" ?w "\<lparr>reply = 9\<rparr>"]
    c p
  show ?thesis
    by (simp add: redis_release_socket_def)
qed

end
